theory Spec2Isabelle
  imports Complex_Main "HOL-Library.Sublist"
begin

section \<open>Strings of the host language\<close>

text \<open>
  A string of the program is a sequence of UTF-16 code units. The model uses
  \<^typ>\<open>string\<close>, reading each \<^typ>\<open>char\<close> as one code unit below 256 (the
  Latin-1 block). On that block \<^verbatim>\<open>String.prototype.toLowerCase\<close> maps
  \<^verbatim>\<open>A-Z\<close> and the letters U+00C0 to U+00DE (U+00D7 apart) to the code unit 32
  above, and leaves every other code unit alone; \<^verbatim>\<open>String.prototype.trim\<close>
  removes TAB, LF, VT, FF, CR, SPACE and NBSP from both ends.
\<close>

definition toLowerCase_char :: "char \<Rightarrow> char" where
  "toLowerCase_char c =
     (let n = (of_char c :: nat)
      in if (65 \<le> n \<and> n \<le> 90) \<or> (192 \<le> n \<and> n \<le> 222 \<and> n \<noteq> 215)
         then char_of (n + 32) else c)"

definition toLowerCase :: "string \<Rightarrow> string" where
  "toLowerCase s = map toLowerCase_char s"

definition isWhiteSpace :: "char \<Rightarrow> bool" where
  "isWhiteSpace c =
     (let n = (of_char c :: nat)
      in n = 9 \<or> n = 10 \<or> n = 11 \<or> n = 12 \<or> n = 13 \<or> n = 32 \<or> n = 160)"

definition trim :: "string \<Rightarrow> string" where
  "trim s = rev (dropWhile isWhiteSpace (rev (dropWhile isWhiteSpace s)))"

text \<open>\<^verbatim>\<open>s.includes(t)\<close>: \<open>t\<close> occurs in \<open>s\<close> as a contiguous run of code units.\<close>

fun str_includes :: "string \<Rightarrow> string \<Rightarrow> bool" where
  "str_includes [] t = (t = [])"
| "str_includes (c # s) t = (prefix t (c # s) \<or> str_includes s t)"

section \<open>Numbers of the host language\<close>

text \<open>
  A \<^verbatim>\<open>number\<close> of the program is a double: a finite value, one of the two
  infinities, or \<^verbatim>\<open>NaN\<close>. The finite values are modelled as reals. The program
  subtracts two numbers and the sort reads the sign of the difference only; the rounding
  of a finite difference keeps its sign, so the exact difference stands for it. Any
  subtraction with \<^verbatim>\<open>NaN\<close>, and the difference of an infinity and itself, is
  \<^verbatim>\<open>NaN\<close>.
\<close>

datatype number = Num real | Infinity | NegInfinity | NaN

fun num_sub :: "number \<Rightarrow> number \<Rightarrow> number" where
  "num_sub NaN b = NaN"
| "num_sub a NaN = NaN"
| "num_sub (Num x) (Num y) = Num (x - y)"
| "num_sub (Num x) Infinity = NegInfinity"
| "num_sub (Num x) NegInfinity = Infinity"
| "num_sub Infinity Infinity = NaN"
| "num_sub Infinity b = Infinity"
| "num_sub NegInfinity NegInfinity = NaN"
| "num_sub NegInfinity b = NegInfinity"

text \<open>\<^verbatim>\<open>v > 0\<close>.\<close>

fun is_positive :: "number \<Rightarrow> bool" where
  "is_positive (Num x) = (0 < x)"
| "is_positive Infinity = True"
| "is_positive NegInfinity = False"
| "is_positive NaN = False"

text \<open>\<^verbatim>\<open>a >= b\<close>: false as soon as one side is \<^verbatim>\<open>NaN\<close>.\<close>

fun num_ge :: "number \<Rightarrow> number \<Rightarrow> bool" where
  "num_ge NaN b = False"
| "num_ge a NaN = False"
| "num_ge (Num x) (Num y) = (y \<le> x)"
| "num_ge Infinity b = True"
| "num_ge a NegInfinity = True"
| "num_ge a Infinity = False"
| "num_ge NegInfinity (Num y) = False"

section \<open>The data model\<close>

text \<open>
  \<^verbatim>\<open>interface WoundReport\<close> of the type declarations. The field \<^verbatim>\<open>id\<close> is
  named \<open>id_field\<close> here. \<^verbatim>\<open>createdAt\<close> is declared a \<^verbatim>\<open>number\<close>: an epoch
  in milliseconds where the form wrote it, but any double as far as the type goes.
\<close>

record WoundReport =
  id_field :: string
  patientName :: string
  roomNo :: string
  dateOfDiscovery :: string
  facHosp :: string
  typeStage :: string
  isNoStage :: bool
  site :: string
  colorDrainage :: string
  undermining :: string
  week1 :: string
  week2 :: string
  week3 :: string
  week4 :: string
  currentTreatment :: string
  comment :: string
  createdAt :: number

section \<open>Stage classification\<close>

definition isAnyStage :: "string \<Rightarrow> bool" where
  "isAnyStage s =
     (str_includes s ''stage 1'' \<or> str_includes s ''stage i'' \<or>
      str_includes s ''stage 2'' \<or> str_includes s ''stage ii'' \<or>
      str_includes s ''stage 3'' \<or> str_includes s ''stage iii'' \<or>
      str_includes s ''stage 4'' \<or> str_includes s ''stage iv'' \<or>
      str_includes s ''unstageable'')"

definition isMatchingStage :: "WoundReport \<Rightarrow> string \<Rightarrow> bool" where
  "isMatchingStage r stage =
     (let s = toLowerCase (typeStage r) in
      if stage = ''all'' then True
      else if stage = ''staged'' then isAnyStage s \<and> \<not> isNoStage r
      else if stage = ''none'' then isNoStage r \<or> \<not> isAnyStage s
      else if stage = ''1'' then
        str_includes s ''stage 1'' \<or> (str_includes s ''stage i'' \<and> \<not> str_includes s ''ii'')
      else if stage = ''2'' then str_includes s ''stage 2'' \<or> str_includes s ''stage ii''
      else if stage = ''3'' then str_includes s ''stage 3'' \<or> str_includes s ''stage iii''
      else if stage = ''4'' then str_includes s ''stage 4'' \<or> str_includes s ''stage iv''
      else if stage = ''unstageable'' then str_includes s ''unstageable''
      else False)"

section \<open>Sorting and the insertion-ordered map\<close>

text \<open>
  \<^verbatim>\<open>Array.prototype.sort\<close> with a comparator is a stable sort: \<open>b\<close> comes before
  \<open>a\<close> when \<open>cmp a b > 0\<close>, \<open>a\<close> before \<open>b\<close> when \<open>cmp a b < 0\<close>, and elements
  that compare equal keep their order. A comparator result of \<^verbatim>\<open>NaN\<close> is taken as
  \<open>+0\<close>, a tie. Where the comparator is consistent, stable insertion sort computes the
  same array as any stable sort. Where it is not (a \<^verbatim>\<open>NaN\<close> among the values
  compared), the language leaves the order to the engine; the model is still the stable
  insertion sort, which moves an element past another only on a result above zero.
\<close>

fun insert_by :: "('a \<Rightarrow> 'a \<Rightarrow> number) \<Rightarrow> 'a \<Rightarrow> 'a list \<Rightarrow> 'a list" where
  "insert_by cmp x [] = [x]"
| "insert_by cmp x (y # ys) =
     (if \<not> is_positive (cmp x y) then x # y # ys else y # insert_by cmp x ys)"

definition sort_by :: "('a \<Rightarrow> 'a \<Rightarrow> number) \<Rightarrow> 'a list \<Rightarrow> 'a list" where
  "sort_by cmp xs = foldr (insert_by cmp) xs []"

text \<open>The comparator of both sorts: \<^verbatim>\<open>(a, b) => b.createdAt - a.createdAt\<close>.\<close>

definition newest_first :: "WoundReport \<Rightarrow> WoundReport \<Rightarrow> number" where
  "newest_first a b = num_sub (createdAt b) (createdAt a)"

text \<open>
  A \<^verbatim>\<open>Map\<close> keeps its entries in the order the keys were first set, and
  \<^verbatim>\<open>values()\<close> iterates in that order: an association list.
\<close>

type_synonym 'v js_map = "(string \<times> 'v) list"

definition Map_has :: "'v js_map \<Rightarrow> string \<Rightarrow> bool" where
  "Map_has m k = (map_of m k \<noteq> None)"

fun Map_set :: "'v js_map \<Rightarrow> string \<Rightarrow> 'v \<Rightarrow> 'v js_map" where
  "Map_set [] k v = [(k, v)]"
| "Map_set ((k', v') # m) k v =
     (if k' = k then (k, v) # m else (k', v') # Map_set m k v)"

definition Map_values :: "'v js_map \<Rightarrow> 'v list" where
  "Map_values m = map snd m"

section \<open>The resolver\<close>

definition wound_key :: "WoundReport \<Rightarrow> string" where
  "wound_key r =
     trim (toLowerCase (patientName r)) @ ''|'' @
     trim (toLowerCase (roomNo r)) @ ''|'' @
     trim (toLowerCase (site r))"

text \<open>The body of the \<^verbatim>\<open>forEach\<close> callback, on the map it updates.\<close>

definition add_wound :: "WoundReport js_map \<Rightarrow> WoundReport \<Rightarrow> WoundReport js_map" where
  "add_wound woundMap r =
     (let key = wound_key r
      in if \<not> Map_has woundMap key then Map_set woundMap key r else woundMap)"

definition uniqueWounds :: "WoundReport list \<Rightarrow> WoundReport list" where
  "uniqueWounds reports =
     (let sortedAll = sort_by newest_first reports;
          woundMap = foldl add_wound [] sortedAll
      in Map_values woundMap)"

definition queryMatch :: "WoundReport \<Rightarrow> string \<Rightarrow> bool" where
  "queryMatch r searchQuery =
     (str_includes (toLowerCase (patientName r)) (toLowerCase searchQuery) \<or>
      str_includes (toLowerCase (roomNo r)) (toLowerCase searchQuery) \<or>
      str_includes (toLowerCase (facHosp r)) (toLowerCase searchQuery) \<or>
      str_includes (toLowerCase (site r)) (toLowerCase searchQuery))"

definition processedReports :: "WoundReport list \<Rightarrow> string \<Rightarrow> string \<Rightarrow> WoundReport list" where
  "processedReports reports searchQuery stageFilter =
     sort_by newest_first
       (filter (\<lambda>r. queryMatch r searchQuery \<and> isMatchingStage r stageFilter)
          (uniqueWounds reports))"


section \<open>The resolver on a store of arrays and objects\<close>

text \<open>
  In the program an array holds references to report objects,
  \<^verbatim>\<open>Array.prototype.sort\<close> reorders the array it is called on, and the spread
  \<^verbatim>\<open>[...reports]\<close>, \<^verbatim>\<open>Array.from\<close> and \<^verbatim>\<open>filter\<close> each allocate a new
  array. The store makes this explicit: a reference is an index, \<open>objects\<close> holds the
  report objects and \<open>arrays\<close> the arrays of references. A reference the program
  holds is always live, so the reads below are in range.
\<close>

type_synonym ref = nat

record heap =
  objects :: "WoundReport list"
  arrays :: "ref list list"

definition new_array :: "ref list \<Rightarrow> heap \<Rightarrow> ref \<times> heap" where
  "new_array xs h = (length (arrays h), h\<lparr>arrays := arrays h @ [xs]\<rparr>)"

text \<open>\<^verbatim>\<open>[...a]\<close>: a new array with the elements of \<open>a\<close>.\<close>

definition spread_array :: "ref \<Rightarrow> heap \<Rightarrow> ref \<times> heap" where
  "spread_array a h = new_array (arrays h ! a) h"

text \<open>\<^verbatim>\<open>a.sort(cmp)\<close>: sorts \<open>a\<close> in place and returns \<open>a\<close> itself.\<close>

definition sort_in_place ::
  "(WoundReport \<Rightarrow> WoundReport \<Rightarrow> number) \<Rightarrow> ref \<Rightarrow> heap \<Rightarrow> ref \<times> heap" where
  "sort_in_place cmp a h =
     (a, h\<lparr>arrays := (arrays h)
            [a := sort_by (\<lambda>x y. cmp (objects h ! x) (objects h ! y)) (arrays h ! a)]\<rparr>)"

text \<open>\<^verbatim>\<open>a.filter(p)\<close>: a new array with the elements of \<open>a\<close> that pass \<open>p\<close>.\<close>

definition filter_array :: "(WoundReport \<Rightarrow> bool) \<Rightarrow> ref \<Rightarrow> heap \<Rightarrow> ref \<times> heap" where
  "filter_array p a h = new_array (filter (\<lambda>x. p (objects h ! x)) (arrays h ! a)) h"

definition add_wound_ref :: "heap \<Rightarrow> ref js_map \<Rightarrow> ref \<Rightarrow> ref js_map" where
  "add_wound_ref h woundMap r =
     (let key = wound_key (objects h ! r)
      in if \<not> Map_has woundMap key then Map_set woundMap key r else woundMap)"

definition processedReports_heap :: "heap \<Rightarrow> ref \<Rightarrow> string \<Rightarrow> string \<Rightarrow> ref \<times> heap" where
  "processedReports_heap h reports searchQuery stageFilter =
     (let (copy, h1) = spread_array reports h;
          (sortedAll, h2) = sort_in_place newest_first copy h1;
          woundMap = foldl (add_wound_ref h2) [] (arrays h2 ! sortedAll);
          (uniqueWounds, h3) = new_array (Map_values woundMap) h2;
          (filtered, h4) =
            filter_array (\<lambda>r. queryMatch r searchQuery \<and> isMatchingStage r stageFilter)
              uniqueWounds h3
      in sort_in_place newest_first filtered h4)"

text \<open>The reports an array refers to, in order.\<close>

definition reports_of :: "heap \<Rightarrow> ref \<Rightarrow> WoundReport list" where
  "reports_of h a = map (\<lambda>x. objects h ! x) (arrays h ! a)"

section \<open>Notions of the specification\<close>

text \<open>
  The logical wound identity, in the specification's words: the triple of patient
  name, room number and anatomical site, each lowercased and trimmed.
\<close>

definition wound_identity :: "WoundReport \<Rightarrow> string \<times> string \<times> string" where
  "wound_identity r =
     (trim (toLowerCase (patientName r)),
      trim (toLowerCase (roomNo r)),
      trim (toLowerCase (site r)))"

text \<open>The map under construction: its keys are distinct and each is the key of its report.\<close>

definition keyed :: "WoundReport js_map \<Rightarrow> bool" where
  "keyed m = (distinct (map fst m) \<and> list_all (\<lambda>(k, v). k = wound_key v) m)"

text \<open>A report with every text field empty, from which the examples are built.\<close>

definition blank_report :: WoundReport where
  "blank_report =
     \<lparr>id_field = [], patientName = [], roomNo = [], dateOfDiscovery = [], facHosp = [],
      typeStage = [], isNoStage = False, site = [], colorDrainage = [], undermining = [],
      week1 = [], week2 = [], week3 = [], week4 = [], currentTreatment = [],
      comment = [], createdAt = Num 0\<rparr>"

text \<open>
  A store with two snapshots of one wound and the array \<open>reports\<close> at reference 0.
\<close>

definition example_heap :: heap where
  "example_heap =
     \<lparr>objects =
        [blank_report\<lparr>patientName := ''Jane Doe'', roomNo := ''4B'', site := ''Heel'',
           createdAt := Num 100\<rparr>,
         blank_report\<lparr>patientName := ''jane doe'', roomNo := ''4b'', site := ''heel'',
           createdAt := Num 200\<rparr>],
      arrays = [[0, 1]]\<rparr>"

section \<open>Substrings\<close>

lemma str_includes_sublist: "str_includes s t \<longleftrightarrow> sublist t s"
  by (induction s) (auto simp: sublist_Cons_right)

lemma str_includes_iff: "str_includes s t \<longleftrightarrow> (\<exists>p q. s = p @ t @ q)"
  by (simp add: str_includes_sublist sublist_def)

lemma str_includes_Nil: "str_includes s []"
  by (simp add: str_includes_sublist)

lemma str_includes_trans: "str_includes s u \<Longrightarrow> sublist t u \<Longrightarrow> str_includes s t"
  unfolding str_includes_sublist by (rule sublist_order.order.trans)

lemma stage_iii_ii: "str_includes s ''stage iii'' \<Longrightarrow> str_includes s ''stage ii''"
  by (erule str_includes_trans) (simp add: sublist_Cons_right)

lemma stage_iv_i: "str_includes s ''stage iv'' \<Longrightarrow> str_includes s ''stage i''"
  by (erule str_includes_trans) (simp add: sublist_Cons_right)

lemma toLowerCase_Nil: "toLowerCase [] = []"
  by (simp add: toLowerCase_def)

lemma lower_Stage_2: "toLowerCase ''Stage 2'' = ''stage 2''"
  by code_simp

lemma lower_Stage_3: "toLowerCase ''Stage 3'' = ''stage 3''"
  by code_simp

lemma lower_Stage_III: "toLowerCase ''Stage III'' = ''stage iii''"
  by code_simp

lemma lower_Stage_IV: "toLowerCase ''Stage IV'' = ''stage iv''"
  by code_simp

lemma lower_Stage_1_II: "toLowerCase ''Stage 1, Stage II'' = ''stage 1, stage ii''"
  by code_simp

lemma lower_Stage_I: "toLowerCase ''Stage I'' = ''stage i''"
  by code_simp

lemma lower_4B: "toLowerCase ''4B'' = ''4b''"
  by code_simp

lemma lower_4b: "toLowerCase ''4b'' = ''4b''"
  by code_simp

lemma lower_5: "toLowerCase ''5'' = ''5''"
  by code_simp

lemma key_Jane_Doe: "trim (toLowerCase ''Jane Doe'') = ''jane doe''"
  by code_simp

lemma key_jane_doe: "trim (toLowerCase ''jane doe'') = ''jane doe''"
  by code_simp

lemma key_4B: "trim (toLowerCase ''4B'') = ''4b''"
  by code_simp

lemma key_4b: "trim (toLowerCase ''4b'') = ''4b''"
  by code_simp

lemma key_Heel: "trim (toLowerCase ''Heel'') = ''heel''"
  by code_simp

lemma key_heel: "trim (toLowerCase ''heel'') = ''heel''"
  by code_simp

lemma key_4: "trim (toLowerCase ''4'') = ''4''"
  by code_simp

lemma key_B_Heel: "trim (toLowerCase ''B|Heel'') = ''b|heel''"
  by code_simp

lemma key_4_B: "trim (toLowerCase ''4|B'') = ''4|b''"
  by code_simp

lemma key_Nil: "trim (toLowerCase []) = []"
  by code_simp

lemma key_a: "trim (toLowerCase ''a'') = ''a''"
  by code_simp

lemma key_b: "trim (toLowerCase ''b'') = ''b''"
  by code_simp

lemma key_c: "trim (toLowerCase ''c'') = ''c''"
  by code_simp

lemmas example_keys =
  key_Jane_Doe key_jane_doe key_4B key_4b key_Heel key_heel key_4 key_B_Heel key_4_B key_Nil

lemma queryMatch_empty: "queryMatch r []"
  by (simp add: queryMatch_def toLowerCase_Nil str_includes_Nil)

section \<open>Normalisation of the identity fields\<close>

lemma toLowerCase_char_whitespace: "isWhiteSpace c \<Longrightarrow> toLowerCase_char c = c"
  by (auto simp: isWhiteSpace_def toLowerCase_char_def Let_def)

lemma toLowerCase_whitespace: "list_all isWhiteSpace p \<Longrightarrow> toLowerCase p = p"
  by (induction p) (simp_all add: toLowerCase_def toLowerCase_char_whitespace)

lemma toLowerCase_padded:
  "list_all isWhiteSpace p \<Longrightarrow> list_all isWhiteSpace q \<Longrightarrow>
     toLowerCase (p @ s @ q) = p @ toLowerCase s @ q"
  using toLowerCase_whitespace [of p] toLowerCase_whitespace [of q]
  by (simp add: toLowerCase_def)

lemma dropWhile_padding: "list_all P p \<Longrightarrow> dropWhile P (p @ s) = dropWhile P s"
  by (induction p) simp_all

text \<open>Whitespace around a string does not survive \<open>trim\<close>.\<close>

lemma trim_padding:
  assumes "list_all isWhiteSpace p" and "list_all isWhiteSpace q"
  shows "trim (p @ s @ q) = trim s"
proof -
  have front: "dropWhile isWhiteSpace (p @ s @ q) = dropWhile isWhiteSpace (s @ q)"
    using assms(1) by (rule dropWhile_padding)
  have rq: "list_all isWhiteSpace (rev q)"
    using assms(2) by (simp add: list_all_iff)
  show ?thesis
  proof (cases "list_all isWhiteSpace s")
    case True
    with assms(2) have "dropWhile isWhiteSpace (s @ q) = []"
      by (simp add: dropWhile_eq_Nil_conv list_all_iff)
    moreover from True have "dropWhile isWhiteSpace s = []"
      by (simp add: dropWhile_eq_Nil_conv list_all_iff)
    ultimately show ?thesis
      by (simp only: trim_def front)
  next
    case False
    then obtain c where "c \<in> set s" and "\<not> isWhiteSpace c"
      by (auto simp: list_all_iff)
    then have "dropWhile isWhiteSpace (s @ q) = dropWhile isWhiteSpace s @ q"
      by (rule dropWhile_append1)
    with front rq show ?thesis
      by (simp add: trim_def dropWhile_padding)
  qed
qed

lemma toLowerCase_char_idem: "toLowerCase_char (toLowerCase_char c) = toLowerCase_char c"
  by (auto simp: toLowerCase_char_def Let_def)

lemma toLowerCase_idem: "toLowerCase (toLowerCase s) = toLowerCase s"
  by (simp add: toLowerCase_def toLowerCase_char_idem)

text \<open>Of two snapshots with one key, the strictly newer one is the output.\<close>

lemma newer_snapshot_wins:
  assumes "wound_key x = wound_key y" and "is_positive (newest_first x y)"
  shows "processedReports [x, y] [] ''all'' = [y]"
  using assms
  by (simp add: processedReports_def uniqueWounds_def sort_by_def add_wound_def
      Map_has_def Map_values_def queryMatch_empty isMatchingStage_def)

section \<open>The sort\<close>

lemma set_insert_by: "set (insert_by cmp x ys) = insert x (set ys)"
  by (induction ys) auto

lemma set_sort_by: "set (sort_by cmp xs) = set xs"
  by (induction xs) (simp_all add: sort_by_def set_insert_by)

lemma num_ge_refl: "a \<noteq> NaN \<Longrightarrow> num_ge a a"
  by (cases a) simp_all

lemma num_ge_trans: "num_ge a b \<Longrightarrow> num_ge b c \<Longrightarrow> num_ge a c"
  by (cases a; cases b; cases c) simp_all

lemma num_ge_total: "a \<noteq> NaN \<Longrightarrow> b \<noteq> NaN \<Longrightarrow> num_ge a b \<or> num_ge b a"
  by (cases a; cases b) auto

text \<open>Off \<^verbatim>\<open>NaN\<close> the comparator is the order: it is above zero exactly when its
  first argument is not at least as new as the second.\<close>

lemma newest_first_positive:
  "createdAt x \<noteq> NaN \<Longrightarrow> createdAt y \<noteq> NaN \<Longrightarrow>
     is_positive (newest_first x y) \<longleftrightarrow> \<not> num_ge (createdAt x) (createdAt y)"
  unfolding newest_first_def by (cases "createdAt x"; cases "createdAt y") auto

lemma sorted_insert_by:
  assumes "createdAt x \<noteq> NaN" and "\<forall>y \<in> set ys. createdAt y \<noteq> NaN"
    and "sorted_wrt (\<lambda>a b. num_ge (createdAt a) (createdAt b)) ys"
  shows "sorted_wrt (\<lambda>a b. num_ge (createdAt a) (createdAt b)) (insert_by newest_first x ys)"
  using assms(2,3)
proof (induction ys)
  case Nil
  then show ?case by simp
next
  case (Cons y ys)
  show ?case
  proof (cases "is_positive (newest_first x y)")
    case False
    with assms(1) Cons.prems have xy: "num_ge (createdAt x) (createdAt y)"
      by (simp add: newest_first_positive)
    with Cons.prems have "\<forall>z \<in> set ys. num_ge (createdAt x) (createdAt z)"
      by (auto intro: num_ge_trans)
    with False xy Cons.prems show ?thesis by simp
  next
    case True
    with assms(1) Cons.prems have "\<not> num_ge (createdAt x) (createdAt y)"
      by (simp add: newest_first_positive)
    with assms(1) Cons.prems num_ge_total [of "createdAt y" "createdAt x"]
    have yx: "num_ge (createdAt y) (createdAt x)"
      by auto
    from Cons.IH Cons.prems
    have "sorted_wrt (\<lambda>a b. num_ge (createdAt a) (createdAt b)) (insert_by newest_first x ys)"
      by simp
    with True yx Cons.prems show ?thesis
      by (simp add: set_insert_by)
  qed
qed

lemma sorted_sort_by:
  "\<forall>x \<in> set xs. createdAt x \<noteq> NaN \<Longrightarrow>
     sorted_wrt (\<lambda>a b. num_ge (createdAt a) (createdAt b)) (sort_by newest_first xs)"
proof (induction xs)
  case Nil
  then show ?case by (simp add: sort_by_def)
next
  case (Cons x xs)
  then have "sorted_wrt (\<lambda>a b. num_ge (createdAt a) (createdAt b)) (sort_by newest_first xs)"
    by simp
  with Cons.prems
  have "sorted_wrt (\<lambda>a b. num_ge (createdAt a) (createdAt b))
      (insert_by newest_first x (sort_by newest_first xs))"
    by (intro sorted_insert_by) (simp_all add: set_sort_by)
  then show ?case by (simp add: sort_by_def)
qed

lemma insert_by_map:
  "map f (insert_by (\<lambda>x y. cmp (f x) (f y)) x ys) = insert_by cmp (f x) (map f ys)"
  by (induction ys) auto

lemma sort_by_map:
  "map f (sort_by (\<lambda>x y. cmp (f x) (f y)) xs) = sort_by cmp (map f xs)"
  by (induction xs) (simp_all add: sort_by_def insert_by_map)

section \<open>The map of wounds\<close>

lemma map_of_Map_set: "map_of (Map_set m k v) = (map_of m)(k \<mapsto> v)"
  by (induction m k v rule: Map_set.induct) (auto simp: fun_eq_iff)

lemma Map_set_fresh: "map_of m k = None \<Longrightarrow> Map_set m k v = m @ [(k, v)]"
  by (induction m k v rule: Map_set.induct) (auto split: if_splits)

lemma keyed_add_wound: "keyed m \<Longrightarrow> keyed (add_wound m r)"
  by (auto simp: keyed_def add_wound_def Map_has_def Map_set_fresh Let_def map_of_eq_None_iff)

lemma keyed_foldl: "keyed m \<Longrightarrow> keyed (foldl add_wound m xs)"
  by (induction xs arbitrary: m) (simp_all add: keyed_add_wound)

lemma map_of_add_wound:
  "map_of (add_wound m r) k =
     (case map_of m k of Some v \<Rightarrow> Some v
      | None \<Rightarrow> if wound_key r = k then Some r else None)"
  by (auto simp: add_wound_def Map_has_def Let_def map_of_Map_set split: option.splits)

text \<open>The map holds, under each key, the first report of the sorted array with that key.\<close>

lemma map_of_foldl_add_wound:
  "map_of (foldl add_wound m xs) k =
     (case map_of m k of Some v \<Rightarrow> Some v
      | None \<Rightarrow> find (\<lambda>x. wound_key x = k) xs)"
  by (induction xs arbitrary: m) (auto simp: map_of_add_wound split: option.splits)

lemma keyed_filter:
  "keyed m \<Longrightarrow> filter (\<lambda>x. wound_key x = k) (Map_values m) =
     (case map_of m k of None \<Rightarrow> [] | Some v \<Rightarrow> [v])"
proof (induction m)
  case Nil
  then show ?case by (simp add: Map_values_def)
next
  case (Cons p m)
  obtain k' v' where p: "p = (k', v')" by (cases p)
  from Cons.prems have km: "keyed m" and kv: "k' = wound_key v'" and fresh: "k' \<notin> fst ` set m"
    by (auto simp: keyed_def p)
  from fresh have none: "map_of m k' = None" by (simp add: map_of_eq_None_iff)
  show ?case
  proof (cases "k' = k")
    case True
    with Cons.IH [OF km] none kv show ?thesis
      by (simp add: p Map_values_def)
  next
    case False
    with Cons.IH [OF km] kv show ?thesis
      by (simp add: p Map_values_def)
  qed
qed

lemma find_sorted_first:
  "sorted_wrt R xs \<Longrightarrow> find P xs = Some v \<Longrightarrow> x \<in> set xs \<Longrightarrow> P x \<Longrightarrow> x = v \<or> R v x"
  by (induction xs) (auto split: if_splits)

lemma find_Some_set: "find P xs = Some v \<Longrightarrow> v \<in> set xs \<and> P v"
  by (induction xs) (auto split: if_splits)

lemma uniqueWounds_filter:
  "filter (\<lambda>x. wound_key x = k) (uniqueWounds reports) =
     (case find (\<lambda>x. wound_key x = k) (sort_by newest_first reports) of
        None \<Rightarrow> [] | Some v \<Rightarrow> [v])"
proof -
  have "keyed (foldl add_wound [] (sort_by newest_first reports))"
    by (rule keyed_foldl) (simp add: keyed_def)
  then show ?thesis
    by (simp add: uniqueWounds_def keyed_filter map_of_foldl_add_wound)
qed

text \<open>
  Among the reports that share one key string, the deduplication keeps exactly one; it
  is a newest one when no timestamp of the list is \<^verbatim>\<open>NaN\<close>.
\<close>

lemma uniqueWounds_latest:
  assumes x: "x \<in> set reports"
    and nonan: "\<forall>r \<in> set reports. createdAt r \<noteq> NaN"
  shows "\<exists>v. filter (\<lambda>y. wound_key y = wound_key x) (uniqueWounds reports) = [v] \<and>
             v \<in> set reports \<and> wound_key v = wound_key x \<and>
             (\<forall>y \<in> set reports. wound_key y = wound_key x \<longrightarrow>
                num_ge (createdAt v) (createdAt y))"
proof -
  let ?P = "\<lambda>y. wound_key y = wound_key x"
  let ?s = "sort_by newest_first reports"
  from x have "\<exists>y \<in> set ?s. ?P y" by (auto simp: set_sort_by)
  then obtain v where v: "find ?P ?s = Some v"
    by (cases "find ?P ?s") (auto simp: find_None_iff)
  from find_Some_set [OF v] have vin: "v \<in> set reports" and vk: "?P v"
    by (simp_all add: set_sort_by)
  have "num_ge (createdAt v) (createdAt y)" if "y \<in> set reports" "?P y" for y
    using find_sorted_first [OF sorted_sort_by [OF nonan] v, of y] that nonan
    by (auto simp: set_sort_by num_ge_refl)
  with v vin vk show ?thesis
    by (auto simp: uniqueWounds_filter)
qed

text \<open>
  The key string determines the identity triple as long as the separator does not occur
  in the normalised name and room.
\<close>

lemma append_sep_inj:
  "sep \<notin> set a \<Longrightarrow> sep \<notin> set a' \<Longrightarrow> a @ sep # r = a' @ sep # r' \<Longrightarrow> a = a' \<and> r = r'"
proof (induction a arbitrary: a')
  case Nil
  then show ?case by (cases a') auto
next
  case (Cons c a)
  then show ?case by (cases a') auto
qed

lemma wound_key_identity:
  assumes "CHR ''|'' \<notin> set (trim (toLowerCase (patientName r)))"
    and "CHR ''|'' \<notin> set (trim (toLowerCase (roomNo r)))"
    and "CHR ''|'' \<notin> set (trim (toLowerCase (patientName r')))"
    and "CHR ''|'' \<notin> set (trim (toLowerCase (roomNo r')))"
  shows "wound_key r = wound_key r' \<longleftrightarrow> wound_identity r = wound_identity r'"
proof
  assume "wound_key r = wound_key r'"
  then have e: "trim (toLowerCase (patientName r)) @ CHR ''|'' #
        (trim (toLowerCase (roomNo r)) @ CHR ''|'' # trim (toLowerCase (site r))) =
      trim (toLowerCase (patientName r')) @ CHR ''|'' #
        (trim (toLowerCase (roomNo r')) @ CHR ''|'' # trim (toLowerCase (site r')))"
    by (simp add: wound_key_def)
  from append_sep_inj [OF assms(1) assms(3) e]
  have n: "trim (toLowerCase (patientName r)) = trim (toLowerCase (patientName r'))"
    and rest: "trim (toLowerCase (roomNo r)) @ CHR ''|'' # trim (toLowerCase (site r)) =
      trim (toLowerCase (roomNo r')) @ CHR ''|'' # trim (toLowerCase (site r'))"
    by simp_all
  from append_sep_inj [OF assms(2) assms(4) rest] n
  show "wound_identity r = wound_identity r'"
    by (simp add: wound_identity_def)
next
  assume "wound_identity r = wound_identity r'"
  then show "wound_key r = wound_key r'"
    by (simp add: wound_identity_def wound_key_def)
qed

lemma set_add_wound: "set (Map_values (add_wound m r)) \<subseteq> insert r (set (Map_values m))"
  by (auto simp: add_wound_def Map_has_def Map_set_fresh Map_values_def Let_def)

lemma set_foldl_add_wound:
  "set (Map_values (foldl add_wound m xs)) \<subseteq> set (Map_values m) \<union> set xs"
proof (induction xs arbitrary: m)
  case Nil
  then show ?case by simp
next
  case (Cons x xs)
  from Cons.IH [of "add_wound m x"] set_add_wound [of m x] show ?case
    by auto
qed

lemma set_uniqueWounds: "set (uniqueWounds reports) \<subseteq> set reports"
  using set_foldl_add_wound [of "[]" "sort_by newest_first reports"]
  by (simp add: uniqueWounds_def set_sort_by Map_values_def)

text \<open>
  On a list whose normalised names and rooms are free of the separator and whose
  timestamps are not \<^verbatim>\<open>NaN\<close>, the deduplication keeps, of the reports of one
  identity triple, exactly one, a newest one.
\<close>

lemma uniqueWounds_latest_identity:
  assumes x: "x \<in> set reports"
    and nonan: "\<forall>r \<in> set reports. createdAt r \<noteq> NaN"
    and sep: "\<forall>r \<in> set reports.
      CHR ''|'' \<notin> set (trim (toLowerCase (patientName r))) \<and>
      CHR ''|'' \<notin> set (trim (toLowerCase (roomNo r)))"
  shows "\<exists>v. filter (\<lambda>y. wound_identity y = wound_identity x) (uniqueWounds reports) = [v] \<and>
             v \<in> set reports \<and> wound_identity v = wound_identity x \<and>
             (\<forall>y \<in> set reports. wound_identity y = wound_identity x \<longrightarrow>
                num_ge (createdAt v) (createdAt y))"
proof -
  have same: "wound_key y = wound_key x \<longleftrightarrow> wound_identity y = wound_identity x"
    if "y \<in> set reports" for y
    using wound_key_identity [of y x] sep x that by blast
  have "filter (\<lambda>y. wound_identity y = wound_identity x) (uniqueWounds reports) =
      filter (\<lambda>y. wound_key y = wound_key x) (uniqueWounds reports)"
    using set_uniqueWounds [of reports] by (intro filter_cong refl) (auto simp: same)
  with uniqueWounds_latest [OF x nonan] same show ?thesis
    by auto
qed

section \<open>The store\<close>

lemma Map_has_map: "Map_has (map (\<lambda>(k, v). (k, g v)) m) k = Map_has m k"
  by (induction m) (auto simp: Map_has_def)

lemma Map_set_map:
  "map (\<lambda>(k, v). (k, g v)) (Map_set m k v) = Map_set (map (\<lambda>(k, v). (k, g v)) m) k (g v)"
  by (induction m k v rule: Map_set.induct) auto

lemma Map_values_map:
  "map g (Map_values m) = Map_values (map (\<lambda>(k, v). (k, g v)) m)"
  by (induction m) (auto simp: Map_values_def)

lemma add_wound_ref_map:
  "map (\<lambda>(k, x). (k, objects h ! x)) (add_wound_ref h m x) =
     add_wound (map (\<lambda>(k, x). (k, objects h ! x)) m) (objects h ! x)"
  by (simp add: add_wound_ref_def add_wound_def Let_def Map_has_map Map_set_map)

lemma foldl_add_wound_ref_map:
  "map (\<lambda>(k, x). (k, objects h ! x)) (foldl (add_wound_ref h) m xs) =
     foldl add_wound (map (\<lambda>(k, x). (k, objects h ! x)) m) (map (\<lambda>x. objects h ! x) xs)"
  by (induction xs arbitrary: m) (simp_all add: add_wound_ref_map)

lemma add_wound_ref_arrays: "add_wound_ref (h\<lparr>arrays := as\<rparr>) = add_wound_ref h"
  by (intro ext) (simp add: add_wound_ref_def)

text \<open>
  One run allocates three arrays after those of the store: the sorted copy, the unique
  wounds and the filtered, sorted result.
\<close>

lemma processedReports_heap_unfold:
  "processedReports_heap h a q f =
    (let srt = sort_by (\<lambda>x y. newest_first (objects h ! x) (objects h ! y)) (arrays h ! a);
         uniq = Map_values (foldl (add_wound_ref h) [] srt);
         flt = filter (\<lambda>x. queryMatch (objects h ! x) q \<and> isMatchingStage (objects h ! x) f) uniq
     in (length (arrays h) + 2,
         h\<lparr>arrays := arrays h @ [srt, uniq,
              sort_by (\<lambda>x y. newest_first (objects h ! x) (objects h ! y)) flt]\<rparr>))"
  by (simp add: processedReports_heap_def spread_array_def new_array_def sort_in_place_def
      filter_array_def add_wound_ref_arrays Let_def nth_append list_update_append)

lemma reports_of_last:
  "reports_of (h\<lparr>arrays := arrays h @ [x, y, z]\<rparr>) (length (arrays h) + 2) =
     map (\<lambda>r. objects h ! r) z"
  by (simp add: reports_of_def nth_append)

text \<open>The run on the store computes the reports that \<open>processedReports\<close> computes.\<close>

lemma reports_of_result:
  "reports_of (snd (processedReports_heap h a q f)) (fst (processedReports_heap h a q f)) =
     processedReports (reports_of h a) q f"
proof -
  let ?d = "\<lambda>x. objects h ! x"
  let ?srt = "sort_by (\<lambda>x y. newest_first (?d x) (?d y)) (arrays h ! a)"
  let ?uniq = "Map_values (foldl (add_wound_ref h) [] ?srt)"
  have srt: "map ?d ?srt = sort_by newest_first (reports_of h a)"
    by (simp add: sort_by_map reports_of_def)
  have uniq: "map ?d ?uniq = uniqueWounds (reports_of h a)"
    by (simp add: Map_values_map foldl_add_wound_ref_map srt uniqueWounds_def)
  have flt: "map ?d (filter (\<lambda>x. queryMatch (?d x) q \<and> isMatchingStage (?d x) f) ?uniq) =
      filter (\<lambda>r. queryMatch r q \<and> isMatchingStage r f) (uniqueWounds (reports_of h a))"
    by (simp add: uniq [symmetric] filter_map comp_def)
  show ?thesis
    by (simp only: processedReports_heap_unfold Let_def fst_conv snd_conv reports_of_last
        sort_by_map flt processedReports_def)
qed

lemma frame_of_run:
  "objects (snd (processedReports_heap h a q f)) = objects h \<and>
   take (length (arrays h)) (arrays (snd (processedReports_heap h a q f))) = arrays h"
  by (simp add: processedReports_heap_unfold Let_def)

section \<open>Stage classification: the claims\<close>

text \<open>
  C3, as amended. For a report whose lowercased label contains \<open>stage i\<close> and does
  not contain \<open>stage 1\<close>, \<open>isMatchingStage\<close> for stage \<open>1\<close> is true only if the label
  does not contain \<open>ii\<close>.
\<close>

theorem stage_1_via_roman_excludes_ii:
  "str_includes (toLowerCase (typeStage r)) ''stage i'' \<Longrightarrow>
   \<not> str_includes (toLowerCase (typeStage r)) ''stage 1'' \<Longrightarrow>
   isMatchingStage r ''1'' \<Longrightarrow>
   \<not> str_includes (toLowerCase (typeStage r)) ''ii''"
  by (simp add: isMatchingStage_def)

theorem stage_1_via_roman_excludes_ii_witness:
  "str_includes (toLowerCase (typeStage (blank_report\<lparr>typeStage := ''Stage I''\<rparr>))) ''stage i'' \<and>
   \<not> str_includes (toLowerCase (typeStage (blank_report\<lparr>typeStage := ''Stage I''\<rparr>))) ''stage 1'' \<and>
   isMatchingStage (blank_report\<lparr>typeStage := ''Stage I''\<rparr>) ''1'' \<and>
   \<not> str_includes (toLowerCase (typeStage (blank_report\<lparr>typeStage := ''Stage I''\<rparr>))) ''ii''"
  using stage_1_via_roman_excludes_ii [of "blank_report\<lparr>typeStage := ''Stage I''\<rparr>"]
  by (simp add: isMatchingStage_def lower_Stage_I)

text \<open>
  C3 as stated fails: the label \<open>Stage 1, Stage II\<close> contains \<open>stage i\<close> and \<open>ii\<close>,
  and is in bucket \<open>1\<close> through the first disjunct, \<open>stage 1\<close>.
\<close>

theorem stage_1_with_ii_counterexample:
  "str_includes (toLowerCase (typeStage (blank_report\<lparr>typeStage := ''Stage 1, Stage II''\<rparr>)))
     ''stage i'' \<and>
   isMatchingStage (blank_report\<lparr>typeStage := ''Stage 1, Stage II''\<rparr>) ''1'' \<and>
   str_includes (toLowerCase (typeStage (blank_report\<lparr>typeStage := ''Stage 1, Stage II''\<rparr>)))
     ''ii''"
  by (simp add: isMatchingStage_def lower_Stage_1_II)

text \<open>
  C5. A report whose flag \<open>isNoStage\<close> is set matches the stage \<open>none\<close>, whatever its
  label.
\<close>

theorem isNoStage_matches_none: "isNoStage r \<Longrightarrow> isMatchingStage r ''none''"
  by (simp add: isMatchingStage_def)

theorem isNoStage_matches_none_witness:
  "isNoStage (blank_report\<lparr>typeStage := ''Stage 2'', isNoStage := True\<rparr>) \<and>
   isMatchingStage (blank_report\<lparr>typeStage := ''Stage 2'', isNoStage := True\<rparr>) ''none''"
  using isNoStage_matches_none [of "blank_report\<lparr>typeStage := ''Stage 2'', isNoStage := True\<rparr>"]
  by simp

text \<open>
  C6. A report with the label \<open>Stage 2\<close> and the flag unset matches the stages \<open>2\<close>
  and \<open>staged\<close>, and does not match \<open>none\<close>.
\<close>

theorem Stage_2_label_buckets:
  "typeStage r = ''Stage 2'' \<Longrightarrow> \<not> isNoStage r \<Longrightarrow>
   isMatchingStage r ''2'' \<and> isMatchingStage r ''staged'' \<and> \<not> isMatchingStage r ''none''"
  by (simp add: isMatchingStage_def isAnyStage_def lower_Stage_2)

theorem Stage_2_label_buckets_witness:
  "typeStage (blank_report\<lparr>typeStage := ''Stage 2''\<rparr>) = ''Stage 2'' \<and>
   \<not> isNoStage (blank_report\<lparr>typeStage := ''Stage 2''\<rparr>) \<and>
   isMatchingStage (blank_report\<lparr>typeStage := ''Stage 2''\<rparr>) ''2'' \<and>
   isMatchingStage (blank_report\<lparr>typeStage := ''Stage 2''\<rparr>) ''staged'' \<and>
   \<not> isMatchingStage (blank_report\<lparr>typeStage := ''Stage 2''\<rparr>) ''none''"
  using Stage_2_label_buckets [of "blank_report\<lparr>typeStage := ''Stage 2''\<rparr>"]
  by (simp add: blank_report_def)

text \<open>
  C9. The exact buckets overlap: a label that contains \<open>stage iii\<close> matches both \<open>2\<close>
  and \<open>3\<close>, and a label that contains \<open>stage iv\<close> and no \<open>ii\<close> matches both \<open>1\<close>
  and \<open>4\<close>.
\<close>

theorem exact_buckets_overlap:
  "(str_includes (toLowerCase (typeStage r)) ''stage iii'' \<longrightarrow>
      isMatchingStage r ''2'' \<and> isMatchingStage r ''3'') \<and>
   (str_includes (toLowerCase (typeStage r)) ''stage iv'' \<and>
    \<not> str_includes (toLowerCase (typeStage r)) ''ii'' \<longrightarrow>
      isMatchingStage r ''1'' \<and> isMatchingStage r ''4'')"
  by (simp add: isMatchingStage_def stage_iii_ii stage_iv_i)

theorem exact_buckets_overlap_witness:
  "str_includes (toLowerCase (typeStage (blank_report\<lparr>typeStage := ''Stage III''\<rparr>))) ''stage iii'' \<and>
   isMatchingStage (blank_report\<lparr>typeStage := ''Stage III''\<rparr>) ''2'' \<and>
   isMatchingStage (blank_report\<lparr>typeStage := ''Stage III''\<rparr>) ''3'' \<and>
   str_includes (toLowerCase (typeStage (blank_report\<lparr>typeStage := ''Stage IV''\<rparr>))) ''stage iv'' \<and>
   \<not> str_includes (toLowerCase (typeStage (blank_report\<lparr>typeStage := ''Stage IV''\<rparr>))) ''ii'' \<and>
   isMatchingStage (blank_report\<lparr>typeStage := ''Stage IV''\<rparr>) ''1'' \<and>
   isMatchingStage (blank_report\<lparr>typeStage := ''Stage IV''\<rparr>) ''4''"
  using exact_buckets_overlap [of "blank_report\<lparr>typeStage := ''Stage III''\<rparr>"]
    exact_buckets_overlap [of "blank_report\<lparr>typeStage := ''Stage IV''\<rparr>"]
  by (simp add: lower_Stage_III lower_Stage_IV)



section \<open>Deduplication and ordering: the claims\<close>

text \<open>
  C1, at an input where the code departs from it. The two reports differ in room and
  site, so they are two wounds by the identity triple, but the separator in their fields
  makes their key strings equal: the deduplication keeps the newer report only, and no
  report of the older one's wound is in the output.
\<close>

theorem wound_key_collision_drops_wound:
  "wound_identity (blank_report\<lparr>patientName := ''Jane Doe'', roomNo := ''4'',
      site := ''B|Heel'', createdAt := Num 100\<rparr>) \<noteq>
   wound_identity (blank_report\<lparr>patientName := ''Jane Doe'', roomNo := ''4|B'',
      site := ''Heel'', createdAt := Num 200\<rparr>) \<and>
   uniqueWounds
     [blank_report\<lparr>patientName := ''Jane Doe'', roomNo := ''4'', site := ''B|Heel'',
        createdAt := Num 100\<rparr>,
      blank_report\<lparr>patientName := ''Jane Doe'', roomNo := ''4|B'', site := ''Heel'',
        createdAt := Num 200\<rparr>] =
     [blank_report\<lparr>patientName := ''Jane Doe'', roomNo := ''4|B'', site := ''Heel'',
        createdAt := Num 200\<rparr>] \<and>
   filter (\<lambda>r. wound_identity r =
       wound_identity (blank_report\<lparr>patientName := ''Jane Doe'', roomNo := ''4'',
         site := ''B|Heel'', createdAt := Num 100\<rparr>))
     (uniqueWounds
       [blank_report\<lparr>patientName := ''Jane Doe'', roomNo := ''4'', site := ''B|Heel'',
          createdAt := Num 100\<rparr>,
        blank_report\<lparr>patientName := ''Jane Doe'', roomNo := ''4|B'', site := ''Heel'',
          createdAt := Num 200\<rparr>]) = [] \<and>
   processedReports
     [blank_report\<lparr>patientName := ''Jane Doe'', roomNo := ''4'', site := ''B|Heel'',
        createdAt := Num 100\<rparr>,
      blank_report\<lparr>patientName := ''Jane Doe'', roomNo := ''4|B'', site := ''Heel'',
        createdAt := Num 200\<rparr>] [] ''all'' =
     [blank_report\<lparr>patientName := ''Jane Doe'', roomNo := ''4|B'', site := ''Heel'',
        createdAt := Num 200\<rparr>]"
  by (simp add: wound_identity_def processedReports_def uniqueWounds_def sort_by_def
      newest_first_def add_wound_def wound_key_def Map_has_def Map_values_def example_keys
      queryMatch_empty isMatchingStage_def)

text \<open>
  C2, as amended. On an input list in which no \<open>createdAt\<close> is \<^verbatim>\<open>NaN\<close>, for every
  query and stage filter, the output of \<open>processedReports\<close> is sorted by \<open>createdAt\<close>,
  descending: every element's \<open>createdAt\<close> is \<^verbatim>\<open>>=\<close> that of every later one, and
  so of the next one.
\<close>

theorem processedReports_sorted:
  assumes "\<forall>r \<in> set reports. createdAt r \<noteq> NaN"
  shows "sorted_wrt (\<lambda>a b. num_ge (createdAt a) (createdAt b)) (processedReports reports q f) \<and>
   (\<forall>i. Suc i < length (processedReports reports q f) \<longrightarrow>
      num_ge (createdAt (processedReports reports q f ! i))
        (createdAt (processedReports reports q f ! Suc i)))"
proof -
  from assms set_uniqueWounds [of reports]
  have "\<forall>r \<in> set (filter (\<lambda>r. queryMatch r q \<and> isMatchingStage r f) (uniqueWounds reports)).
      createdAt r \<noteq> NaN"
    by auto
  then have "sorted_wrt (\<lambda>a b. num_ge (createdAt a) (createdAt b)) (processedReports reports q f)"
    unfolding processedReports_def by (rule sorted_sort_by)
  then show ?thesis
    by (auto simp: sorted_wrt_iff_nth_less)
qed

theorem processedReports_sorted_witness:
  "list_all (\<lambda>r. createdAt r \<noteq> NaN)
     [blank_report\<lparr>patientName := ''Jane Doe'', createdAt := Num 100\<rparr>,
      blank_report\<lparr>roomNo := ''4B'', createdAt := Num 200\<rparr>] \<and>
   map createdAt
     (processedReports
        [blank_report\<lparr>patientName := ''Jane Doe'', createdAt := Num 100\<rparr>,
         blank_report\<lparr>roomNo := ''4B'', createdAt := Num 200\<rparr>] [] ''all'') =
     [Num 200, Num 100] \<and>
   sorted_wrt (\<lambda>a b. num_ge (createdAt a) (createdAt b))
     (processedReports
        [blank_report\<lparr>patientName := ''Jane Doe'', createdAt := Num 100\<rparr>,
         blank_report\<lparr>roomNo := ''4B'', createdAt := Num 200\<rparr>] [] ''all'')"
proof -
  have nonan: "\<forall>r \<in> set [blank_report\<lparr>patientName := ''Jane Doe'', createdAt := Num 100\<rparr>,
      blank_report\<lparr>roomNo := ''4B'', createdAt := Num 200\<rparr>]. createdAt r \<noteq> NaN"
    by simp
  have out: "map createdAt
     (processedReports
        [blank_report\<lparr>patientName := ''Jane Doe'', createdAt := Num 100\<rparr>,
         blank_report\<lparr>roomNo := ''4B'', createdAt := Num 200\<rparr>] [] ''all'') =
     [Num 200, Num 100]"
    by (simp add: processedReports_def uniqueWounds_def sort_by_def newest_first_def
        add_wound_def wound_key_def Map_has_def Map_values_def example_keys queryMatch_empty
        isMatchingStage_def blank_report_def)
  from processedReports_sorted [OF nonan, of "[]" "''all''"] out show ?thesis
    by simp
qed

text \<open>
  C2 as stated fails where a \<open>createdAt\<close> is \<^verbatim>\<open>NaN\<close>: every comparison with it is a
  tie, so three reports of three wounds with the timestamps 1, \<^verbatim>\<open>NaN\<close>, 3 come out
  in that order, and neither \<^verbatim>\<open>1 >= NaN\<close> nor \<^verbatim>\<open>1 >= 3\<close> holds.
\<close>

theorem processedReports_NaN_counterexample:
  "map createdAt
     (processedReports
        [blank_report\<lparr>patientName := ''a'', createdAt := Num 1\<rparr>,
         blank_report\<lparr>patientName := ''b'', createdAt := NaN\<rparr>,
         blank_report\<lparr>patientName := ''c'', createdAt := Num 3\<rparr>] [] ''all'') =
     [Num 1, NaN, Num 3] \<and>
   \<not> num_ge (Num 1) NaN \<and>
   \<not> num_ge (Num 1) (Num 3) \<and>
   \<not> sorted_wrt (\<lambda>a b. num_ge (createdAt a) (createdAt b))
     (processedReports
        [blank_report\<lparr>patientName := ''a'', createdAt := Num 1\<rparr>,
         blank_report\<lparr>patientName := ''b'', createdAt := NaN\<rparr>,
         blank_report\<lparr>patientName := ''c'', createdAt := Num 3\<rparr>] [] ''all'')"
  by (simp add: processedReports_def uniqueWounds_def sort_by_def newest_first_def
      add_wound_def wound_key_def Map_has_def Map_values_def example_keys key_a key_b key_c
      queryMatch_empty isMatchingStage_def blank_report_def)

text \<open>
  C4. Of the two snapshots A (Jane Doe, 4B, Heel, created 100, Stage 2) and B (jane doe,
  4b, heel, created 200, Stage 3), whatever their other fields, \<open>processedReports\<close> with
  the empty query and the filter \<open>all\<close> returns B alone, and B matches the stage \<open>3\<close>.
  The matching of wound identities is whitespace-trimmed and case-insensitive: the key of
  a report does not change when whitespace is put around its patient name, room number
  and site, nor when the three fields are lowercased; and of any two snapshots with one
  key, the second strictly newer, the output is the second alone.
\<close>

theorem jane_doe_example:
  "processedReports
     [a\<lparr>patientName := ''Jane Doe'', roomNo := ''4B'', site := ''Heel'', createdAt := Num 100,
        typeStage := ''Stage 2''\<rparr>,
      b\<lparr>patientName := ''jane doe'', roomNo := ''4b'', site := ''heel'', createdAt := Num 200,
        typeStage := ''Stage 3''\<rparr>] [] ''all'' =
     [b\<lparr>patientName := ''jane doe'', roomNo := ''4b'', site := ''heel'', createdAt := Num 200,
        typeStage := ''Stage 3''\<rparr>] \<and>
   isMatchingStage
     (b\<lparr>patientName := ''jane doe'', roomNo := ''4b'', site := ''heel'', createdAt := Num 200,
        typeStage := ''Stage 3''\<rparr>) ''3'' \<and>
   (list_all isWhiteSpace (p1 @ q1 @ p2 @ q2 @ p3 @ q3) \<longrightarrow>
      wound_key (r\<lparr>patientName := p1 @ patientName r @ q1, roomNo := p2 @ roomNo r @ q2,
        site := p3 @ site r @ q3\<rparr>) = wound_key r) \<and>
   wound_key (r\<lparr>patientName := toLowerCase (patientName r),
     roomNo := toLowerCase (roomNo r), site := toLowerCase (site r)\<rparr>) = wound_key r \<and>
   (wound_key x = wound_key y \<and> is_positive (newest_first x y) \<longrightarrow>
      processedReports [x, y] [] ''all'' = [y])"
proof -
  have example: "processedReports
     [a\<lparr>patientName := ''Jane Doe'', roomNo := ''4B'', site := ''Heel'', createdAt := Num 100,
        typeStage := ''Stage 2''\<rparr>,
      b\<lparr>patientName := ''jane doe'', roomNo := ''4b'', site := ''heel'', createdAt := Num 200,
        typeStage := ''Stage 3''\<rparr>] [] ''all'' =
     [b\<lparr>patientName := ''jane doe'', roomNo := ''4b'', site := ''heel'', createdAt := Num 200,
        typeStage := ''Stage 3''\<rparr>]"
    by (simp add: processedReports_def uniqueWounds_def sort_by_def newest_first_def
        add_wound_def wound_key_def Map_has_def Map_values_def queryMatch_empty
        isMatchingStage_def example_keys)
  have stage: "isMatchingStage
     (b\<lparr>patientName := ''jane doe'', roomNo := ''4b'', site := ''heel'', createdAt := Num 200,
        typeStage := ''Stage 3''\<rparr>) ''3''"
    by (simp add: isMatchingStage_def lower_Stage_3)
  have padded: "wound_key (r\<lparr>patientName := p1 @ patientName r @ q1,
      roomNo := p2 @ roomNo r @ q2, site := p3 @ site r @ q3\<rparr>) = wound_key r"
    if "list_all isWhiteSpace (p1 @ q1 @ p2 @ q2 @ p3 @ q3)"
    using that by (simp add: wound_key_def toLowerCase_padded trim_padding)
  have lowered: "wound_key (r\<lparr>patientName := toLowerCase (patientName r),
      roomNo := toLowerCase (roomNo r), site := toLowerCase (site r)\<rparr>) = wound_key r"
    by (simp add: wound_key_def toLowerCase_idem)
  from example stage padded lowered newer_snapshot_wins [of x y] show ?thesis
    by blast
qed

theorem jane_doe_example_witness:
  "map createdAt
     (processedReports
       [blank_report\<lparr>patientName := ''Jane Doe'', roomNo := ''4B'', site := ''Heel'',
          createdAt := Num 100, typeStage := ''Stage 2''\<rparr>,
        blank_report\<lparr>patientName := ''jane doe'', roomNo := ''4b'', site := ''heel'',
          createdAt := Num 200, typeStage := ''Stage 3''\<rparr>] [] ''all'') = [Num 200] \<and>
   isMatchingStage
     (blank_report\<lparr>patientName := ''jane doe'', roomNo := ''4b'', site := ''heel'',
        createdAt := Num 200, typeStage := ''Stage 3''\<rparr>) ''3'' \<and>
   list_all isWhiteSpace (''  '' @ '' '' @ '' '' @ [] @ [] @ ''  '') \<and>
   wound_key (blank_report\<lparr>createdAt := Num 100, patientName := ''  Jane Doe '',
     roomNo := '' 4B'', site := ''Heel  ''\<rparr>) =
   wound_key (blank_report\<lparr>createdAt := Num 100, patientName := ''Jane Doe'',
     roomNo := ''4B'', site := ''Heel''\<rparr>) \<and>
   wound_key (blank_report\<lparr>createdAt := Num 100, patientName := ''  Jane Doe '',
     roomNo := '' 4B'', site := ''Heel  ''\<rparr>) =
   wound_key (blank_report\<lparr>patientName := ''jane doe'', roomNo := ''4b'', site := ''heel'',
     createdAt := Num 200\<rparr>) \<and>
   is_positive (newest_first
     (blank_report\<lparr>createdAt := Num 100, patientName := ''  Jane Doe '',
        roomNo := '' 4B'', site := ''Heel  ''\<rparr>)
     (blank_report\<lparr>patientName := ''jane doe'', roomNo := ''4b'', site := ''heel'',
        createdAt := Num 200\<rparr>)) \<and>
   processedReports
     [blank_report\<lparr>createdAt := Num 100, patientName := ''  Jane Doe '',
        roomNo := '' 4B'', site := ''Heel  ''\<rparr>,
      blank_report\<lparr>patientName := ''jane doe'', roomNo := ''4b'', site := ''heel'',
        createdAt := Num 200\<rparr>] [] ''all'' =
     [blank_report\<lparr>patientName := ''jane doe'', roomNo := ''4b'', site := ''heel'',
        createdAt := Num 200\<rparr>]"
proof -
  let ?R = "blank_report\<lparr>createdAt := Num 100, patientName := ''Jane Doe'',
    roomNo := ''4B'', site := ''Heel''\<rparr>"
  let ?A = "blank_report\<lparr>createdAt := Num 100, patientName := ''  Jane Doe '',
    roomNo := '' 4B'', site := ''Heel  ''\<rparr>"
  let ?B = "blank_report\<lparr>patientName := ''jane doe'', roomNo := ''4b'', site := ''heel'',
    createdAt := Num 200\<rparr>"
  have ws: "list_all isWhiteSpace (''  '' @ '' '' @ '' '' @ [] @ [] @ ''  '')"
    by (simp add: isWhiteSpace_def)
  have kr: "wound_key ?R = ''jane doe|4b|heel''"
    by (simp add: wound_key_def example_keys)
  have kb: "wound_key ?B = ''jane doe|4b|heel''"
    by (simp add: wound_key_def example_keys)
  have newer: "is_positive (newest_first ?A ?B)"
    by (simp add: newest_first_def)
  note ex = jane_doe_example [of blank_report blank_report "''  ''" "'' ''" "'' ''" "[]" "[]"
      "''  ''" ?R ?A ?B]
  from ex ws have pad: "wound_key ?A = wound_key ?R"
    by simp
  with kr kb have same: "wound_key ?A = wound_key ?B"
    by simp
  with ex newer have out: "processedReports [?A, ?B] [] ''all'' = [?B]"
    by blast
  from ex have "map createdAt
     (processedReports
       [blank_report\<lparr>patientName := ''Jane Doe'', roomNo := ''4B'', site := ''Heel'',
          createdAt := Num 100, typeStage := ''Stage 2''\<rparr>,
        blank_report\<lparr>patientName := ''jane doe'', roomNo := ''4b'', site := ''heel'',
          createdAt := Num 200, typeStage := ''Stage 3''\<rparr>] [] ''all'') = [Num 200]"
    and "isMatchingStage
     (blank_report\<lparr>patientName := ''jane doe'', roomNo := ''4b'', site := ''heel'',
        createdAt := Num 200, typeStage := ''Stage 3''\<rparr>) ''3''"
    by simp_all
  with ws pad same newer out show ?thesis
    by blast
qed

section \<open>The search predicate: the claim\<close>

text \<open>
  C7. A report passes the search predicate exactly when the lowercased query occurs in
  its lowercased patient name, room number, facility or site; a report the deduplication
  retained is in the output of \<open>processedReports\<close> exactly when it passes that predicate
  and the stage filter; the empty query passes; and the query \<open>4b\<close> matches the room
  number \<open>4B\<close>.
\<close>

theorem search_predicate:
  "(queryMatch r q \<longleftrightarrow>
      (\<exists>p s. toLowerCase (patientName r) = p @ toLowerCase q @ s) \<or>
      (\<exists>p s. toLowerCase (roomNo r) = p @ toLowerCase q @ s) \<or>
      (\<exists>p s. toLowerCase (facHosp r) = p @ toLowerCase q @ s) \<or>
      (\<exists>p s. toLowerCase (site r) = p @ toLowerCase q @ s)) \<and>
   (r \<in> set (processedReports reports q f) \<longleftrightarrow>
      r \<in> set (uniqueWounds reports) \<and> queryMatch r q \<and> isMatchingStage r f) \<and>
   queryMatch r [] \<and>
   queryMatch (r\<lparr>roomNo := ''4B''\<rparr>) ''4b''"
proof -
  have occurs: "queryMatch r q \<longleftrightarrow>
      (\<exists>p s. toLowerCase (patientName r) = p @ toLowerCase q @ s) \<or>
      (\<exists>p s. toLowerCase (roomNo r) = p @ toLowerCase q @ s) \<or>
      (\<exists>p s. toLowerCase (facHosp r) = p @ toLowerCase q @ s) \<or>
      (\<exists>p s. toLowerCase (site r) = p @ toLowerCase q @ s)"
    by (simp only: queryMatch_def str_includes_iff)
  have member: "r \<in> set (processedReports reports q f) \<longleftrightarrow>
      r \<in> set (uniqueWounds reports) \<and> queryMatch r q \<and> isMatchingStage r f"
    by (simp add: processedReports_def set_sort_by)
  have room: "queryMatch (r\<lparr>roomNo := ''4B''\<rparr>) ''4b''"
    by (simp add: queryMatch_def lower_4B lower_4b)
  from occurs member room queryMatch_empty show ?thesis by blast
qed

theorem search_predicate_witness:
  "queryMatch (blank_report\<lparr>roomNo := ''4B''\<rparr>) ''4b'' \<and>
   blank_report\<lparr>roomNo := ''4B''\<rparr> \<in> set (uniqueWounds [blank_report\<lparr>roomNo := ''4B''\<rparr>]) \<and>
   blank_report\<lparr>roomNo := ''4B''\<rparr>
     \<in> set (processedReports [blank_report\<lparr>roomNo := ''4B''\<rparr>] ''4b'' ''all'') \<and>
   \<not> queryMatch (blank_report\<lparr>roomNo := ''4B''\<rparr>) ''5''"
proof -
  have u: "blank_report\<lparr>roomNo := ''4B''\<rparr> \<in> set (uniqueWounds [blank_report\<lparr>roomNo := ''4B''\<rparr>])"
    by (simp add: uniqueWounds_def sort_by_def add_wound_def Map_has_def Map_values_def)
  have n: "\<not> queryMatch (blank_report\<lparr>roomNo := ''4B''\<rparr>) ''5''"
    by (simp add: queryMatch_def blank_report_def toLowerCase_Nil lower_4B lower_5)
  note sp = search_predicate
    [of "blank_report\<lparr>roomNo := ''4B''\<rparr>" "''4b''" "[blank_report\<lparr>roomNo := ''4B''\<rparr>]" "''all''"]
  from search_predicate [of blank_report "''4b''" "[]" "''all''"]
  have q: "queryMatch (blank_report\<lparr>roomNo := ''4B''\<rparr>) ''4b''"
    by blast
  from sp have "blank_report\<lparr>roomNo := ''4B''\<rparr>
      \<in> set (processedReports [blank_report\<lparr>roomNo := ''4B''\<rparr>] ''4b'' ''all'') \<longleftrightarrow>
    blank_report\<lparr>roomNo := ''4B''\<rparr> \<in> set (uniqueWounds [blank_report\<lparr>roomNo := ''4B''\<rparr>]) \<and>
    queryMatch (blank_report\<lparr>roomNo := ''4B''\<rparr>) ''4b'' \<and>
    isMatchingStage (blank_report\<lparr>roomNo := ''4B''\<rparr>) ''all''"
    by blast
  with u q have "blank_report\<lparr>roomNo := ''4B''\<rparr>
      \<in> set (processedReports [blank_report\<lparr>roomNo := ''4B''\<rparr>] ''4b'' ''all'')"
    by (simp add: isMatchingStage_def)
  with u n q show ?thesis
    by blast
qed

section \<open>Frame and determinism: the claim\<close>

text \<open>
  C8. A run of the resolver on a store, from the array \<open>reports\<close>, leaves every report
  object and every array of the store as it was, the input array among them: the sorts
  reorder the copies the run allocates. The array it returns holds the reports that
  \<open>processedReports\<close> computes from the input, and a second run from the same array
  returns the same reports.
\<close>

theorem processedReports_frame:
  assumes "reports < length (arrays h)"
    and "processedReports_heap h reports q f = (res, h')"
    and "processedReports_heap h' reports q f = (res2, h2)"
  shows "objects h' = objects h \<and>
         take (length (arrays h)) (arrays h') = arrays h \<and>
         arrays h' ! reports = arrays h ! reports \<and>
         reports_of h' reports = reports_of h reports \<and>
         reports_of h' res = processedReports (reports_of h reports) q f \<and>
         reports_of h2 res2 = reports_of h' res"
proof -
  from frame_of_run [of h reports q f] assms(2)
  have obj: "objects h' = objects h"
    and old: "take (length (arrays h)) (arrays h') = arrays h"
    by simp_all
  from old assms(1) have arr: "arrays h' ! reports = arrays h ! reports"
    by (metis nth_take)
  from obj arr have inp: "reports_of h' reports = reports_of h reports"
    by (simp add: reports_of_def)
  from reports_of_result [of h reports q f] assms(2)
  have out: "reports_of h' res = processedReports (reports_of h reports) q f"
    by simp
  from reports_of_result [of h' reports q f] assms(3)
  have "reports_of h2 res2 = processedReports (reports_of h' reports) q f"
    by simp
  with inp out have "reports_of h2 res2 = reports_of h' res"
    by simp
  with obj old arr inp out show ?thesis
    by simp
qed

theorem processedReports_frame_witness:
  "(0::nat) < length (arrays example_heap) \<and>
   processedReports_heap example_heap 0 [] ''all'' =
     (3, example_heap\<lparr>arrays := [[0, 1], [1, 0], [1], [1]]\<rparr>) \<and>
   processedReports_heap (example_heap\<lparr>arrays := [[0, 1], [1, 0], [1], [1]]\<rparr>) 0 [] ''all'' =
     (6, example_heap\<lparr>arrays := [[0, 1], [1, 0], [1], [1], [1, 0], [1], [1]]\<rparr>) \<and>
   objects (example_heap\<lparr>arrays := [[0, 1], [1, 0], [1], [1]]\<rparr>) = objects example_heap \<and>
   arrays (example_heap\<lparr>arrays := [[0, 1], [1, 0], [1], [1]]\<rparr>) ! 0 = arrays example_heap ! 0 \<and>
   reports_of (example_heap\<lparr>arrays := [[0, 1], [1, 0], [1], [1], [1, 0], [1], [1]]\<rparr>) 6 =
     reports_of (example_heap\<lparr>arrays := [[0, 1], [1, 0], [1], [1]]\<rparr>) 3"
proof -
  have len: "(0::nat) < length (arrays example_heap)"
    by (simp add: example_heap_def)
  have run1: "processedReports_heap example_heap 0 [] ''all'' =
      (3, example_heap\<lparr>arrays := [[0, 1], [1, 0], [1], [1]]\<rparr>)"
    by (simp add: processedReports_heap_unfold example_heap_def add_wound_ref_def
        sort_by_def newest_first_def wound_key_def Map_has_def Map_values_def example_keys
        queryMatch_empty isMatchingStage_def Let_def)
  have run2: "processedReports_heap (example_heap\<lparr>arrays := [[0, 1], [1, 0], [1], [1]]\<rparr>) 0 []
      ''all'' = (6, example_heap\<lparr>arrays := [[0, 1], [1, 0], [1], [1], [1, 0], [1], [1]]\<rparr>)"
    by (simp add: processedReports_heap_unfold example_heap_def add_wound_ref_def
        sort_by_def newest_first_def wound_key_def Map_has_def Map_values_def example_keys
        queryMatch_empty isMatchingStage_def Let_def)
  from processedReports_frame [OF len run1 run2] len run1 run2 show ?thesis
    by blast
qed

end
